theory Spec2Isabelle
  imports Main
begin

section \<open>Python strings\<close>

text \<open>
  A Python \<open>str\<close> is a sequence of characters (code points) and \<open>len\<close> counts
  characters. The characters of the model are the code points below 256, \<open>C c\<close> for
  the code point of the \<open>char\<close> \<open>c\<close>, and the three code points beyond them that
  \<open>upper()\<close> and \<open>lower()\<close> reach from there: U+0178, the upper case of U+00FF;
  U+039C, the upper case of the micro sign U+00B5; U+03BC, the lower case of U+039C.
  They cover every literal of the source, the pound sign and the not sign of the default
  shift mapping included, and the case mappings never leave them. A string literal of the
  source is written \<open>py\<close> applied to the literal. Indices and lengths are Python
  integers, hence \<open>int\<close>.
\<close>

datatype pychar =
    C char
  | CAPITAL_Y_DIAERESIS
  | GREEK_CAPITAL_MU
  | GREEK_SMALL_MU

type_synonym str = "pychar list"

abbreviation py :: "string \<Rightarrow> str" where "py s \<equiv> map C s"

abbreviation NL :: pychar where "NL \<equiv> C (CHR 0x0A)"
abbreviation SPACE :: pychar where "SPACE \<equiv> C (CHR 0x20)"
abbreviation BACKTICK :: pychar where "BACKTICK \<equiv> C (CHR 0x60)"
abbreviation BACKSLASH :: pychar where "BACKSLASH \<equiv> C (CHR 0x5C)"

text \<open>\<open>s[:i]\<close> and \<open>s[i:]\<close>: a negative bound counts from the end, and every bound is
  clipped to the string.\<close>

definition slice_to :: "str \<Rightarrow> int \<Rightarrow> str" where
  "slice_to s i = (if i < 0 then take (nat (int (length s) + i)) s else take (nat i) s)"

definition slice_from :: "str \<Rightarrow> int \<Rightarrow> str" where
  "slice_from s i = (if i < 0 then drop (nat (int (length s) + i)) s else drop (nat i) s)"

text \<open>\<open>s.startswith(p)\<close>.\<close>

definition startswith :: "str \<Rightarrow> str \<Rightarrow> bool" where
  "startswith s p = (take (length p) s = p)"

text \<open>\<open>s.find(sub)\<close>: the lowest index where \<open>sub\<close> occurs, or \<open>-1\<close>.\<close>

fun find_at :: "str \<Rightarrow> str \<Rightarrow> int \<Rightarrow> int" where
  "find_at [] sub k = (if sub = [] then k else - 1)"
| "find_at (c # s) sub k = (if startswith (c # s) sub then k else find_at s sub (k + 1))"

definition find :: "str \<Rightarrow> str \<Rightarrow> int" where
  "find s sub = find_at s sub 0"

text \<open>\<open>s.rfind(sub)\<close>: the highest index where \<open>sub\<close> occurs, or \<open>-1\<close>. The scan
  runs left to right and remembers the last index that matched.\<close>

fun rfind_at :: "str \<Rightarrow> str \<Rightarrow> int \<Rightarrow> int \<Rightarrow> int" where
  "rfind_at [] sub k best = (if sub = [] then k else best)"
| "rfind_at (c # s) sub k best =
     rfind_at s sub (k + 1) (if startswith (c # s) sub then k else best)"

definition rfind :: "str \<Rightarrow> str \<Rightarrow> int" where
  "rfind s sub = rfind_at s sub 0 (- 1)"

text \<open>\<open>s.replace(old, new)\<close>: every occurrence of \<open>old\<close>, found left to right without
  overlap, is replaced. With an empty \<open>old\<close> Python puts \<open>new\<close> before every character
  and at the end.\<close>

function replace_ne :: "str \<Rightarrow> str \<Rightarrow> str \<Rightarrow> str" where
  "replace_ne [] old new = []"
| "replace_ne (c # s) old new =
     (if old \<noteq> [] \<and> startswith (c # s) old
      then new @ replace_ne (drop (length old) (c # s)) old new
      else c # replace_ne s old new)"
  by pat_completeness auto
termination
  by (relation "measure (\<lambda>(s, old, new). length s)") (auto simp: neq_Nil_conv)

definition replace :: "str \<Rightarrow> str \<Rightarrow> str \<Rightarrow> str" where
  "replace s old new =
     (if old = [] then new @ concat (map (\<lambda>c. c # new) s) else replace_ne s old new)"

text \<open>\<open>s.split(sep)\<close> for a separator of one character (the source splits on the
  newline only): the pieces between the separators, \<open>cur\<close> being the piece in progress.
  The empty string gives one empty piece.\<close>

fun split_acc :: "str \<Rightarrow> pychar \<Rightarrow> str \<Rightarrow> str list" where
  "split_acc [] sep cur = [cur]"
| "split_acc (c # s) sep cur =
     (if c = sep then cur # split_acc s sep [] else split_acc s sep (cur @ [c]))"

definition split :: "str \<Rightarrow> pychar \<Rightarrow> str list" where
  "split s sep = split_acc s sep []"

text \<open>
  \<open>s.upper()\<close> and \<open>s.lower()\<close>, character by character, as Python maps the
  characters of the model. Upper case: the letters \<open>a\<close> to \<open>z\<close> and the letters
  U+00E0 to U+00FE (the division sign U+00F7 apart) move down by 32; the sharp s U+00DF
  becomes the two letters \<open>SS\<close>; the micro sign becomes U+039C, as does U+03BC; U+00FF
  becomes U+0178. Lower case: the letters \<open>A\<close> to \<open>Z\<close> and the letters U+00C0 to
  U+00DE (the multiplication sign U+00D7 apart) move up by 32; U+0178 becomes U+00FF and
  U+039C becomes U+03BC. Every other character is its own upper and lower case.
\<close>

definition upper_char :: "pychar \<Rightarrow> str" where
  "upper_char c =
     (case c of
        C a \<Rightarrow>
          (let n = (of_char a :: nat)
           in if (0x61 \<le> n \<and> n \<le> 0x7A) \<or> (0xE0 \<le> n \<and> n \<le> 0xFE \<and> n \<noteq> 0xF7)
              then [C (char_of (n - 0x20))]
              else if n = 0xDF then [C (CHR ''S''), C (CHR ''S'')]
              else if n = 0xB5 then [GREEK_CAPITAL_MU]
              else if n = 0xFF then [CAPITAL_Y_DIAERESIS]
              else [c])
      | CAPITAL_Y_DIAERESIS \<Rightarrow> [CAPITAL_Y_DIAERESIS]
      | GREEK_CAPITAL_MU \<Rightarrow> [GREEK_CAPITAL_MU]
      | GREEK_SMALL_MU \<Rightarrow> [GREEK_CAPITAL_MU])"

definition lower_char :: "pychar \<Rightarrow> pychar" where
  "lower_char c =
     (case c of
        C a \<Rightarrow>
          (let n = (of_char a :: nat)
           in if (0x41 \<le> n \<and> n \<le> 0x5A) \<or> (0xC0 \<le> n \<and> n \<le> 0xDE \<and> n \<noteq> 0xD7)
              then C (char_of (n + 0x20))
              else c)
      | CAPITAL_Y_DIAERESIS \<Rightarrow> C (CHR 0xFF)
      | GREEK_CAPITAL_MU \<Rightarrow> GREEK_SMALL_MU
      | GREEK_SMALL_MU \<Rightarrow> GREEK_SMALL_MU)"

definition upper :: "str \<Rightarrow> str" where
  "upper s = concat (map upper_char s)"

definition lower :: "str \<Rightarrow> str" where
  "lower s = map lower_char s"

text \<open>\<open>range(a, b)\<close> and \<open>range(a, b, -1)\<close>.\<close>

definition range_up :: "int \<Rightarrow> int \<Rightarrow> int list" where
  "range_up a b = [a..b - 1]"

definition range_down :: "int \<Rightarrow> int \<Rightarrow> int list" where
  "range_down a b = map (\<lambda>k. a - int k) [0..<nat (a - b)]"


section \<open>The control\<close>

text \<open>
  The state of a \<open>CodeField\<close>: the attributes that the editing code reads or writes,
  the values it hands to the three controls it repaints (the markdown value, the language
  text, the line-number labels, the border of the container), and the notifications it
  has fired, latest last. The attributes that only style the controls (theme, colours,
  font, font size, letter spacing) take no part in any operation below and are left out.
\<close>

datatype notification = OnChange | OnFocus bool

record CodeField =
  text' :: str
  show_language_text :: bool
  show_line_numbers :: bool
  allow_pasting :: bool
  show_focus_border :: bool
  tab_spacing :: int
  language :: str
  custom_shift_mapping :: "str \<rightharpoonup> str"
  is_caps :: bool
  focused :: bool
  type_point :: int
  code_markdown_value :: str
  language_text_value :: str
  line_numbers_controls :: "int list"
  border_shown :: bool
  fired :: "notification list"

record KeyboardEvent =
  key :: str
  ctrl :: bool
  shift :: bool

text \<open>The page, as far as the control uses it: the text on its clipboard.\<close>

record Page =
  clipboard :: str

definition default_shift_mapping :: "str \<rightharpoonup> str" where
  "default_shift_mapping = map_of
     [(py ''1'', py ''!''), (py ''2'', py [CHR 0x22]), (py ''3'', py [CHR 0xA3]), (py ''4'', py ''$''),
      (py ''5'', py ''%''), (py ''6'', py ''^''), (py ''7'', py ''&''), (py ''8'', py ''*''), (py ''9'', py ''(''),
      (py ''0'', py '')''), (py ''-'', py ''_''), (py ''='', py ''+''),
      (py ''['', py ''{''), (py '']'', py ''}''), (py '';'', py '':''), (py [CHR 0x27], py ''@''),
      (py ''#'', py ''~''), (py '','', py ''<''), (py ''.'', py ''>''), (py ''/'', py ''?''),
      ([BACKTICK], py [CHR 0xAC]), ([BACKSLASH], py ''|'')]"

text \<open>\<open>__init__\<close>: \<open>None\<close> for the shift mapping selects the default one; the control
  starts unfocused, caps off, with the type point at the end of the text.\<close>

definition init ::
  "str \<Rightarrow> bool \<Rightarrow> bool \<Rightarrow> bool \<Rightarrow> bool \<Rightarrow> int \<Rightarrow> str \<Rightarrow> (str \<rightharpoonup> str) option \<Rightarrow> CodeField" where
  "init text0 show_language_text0 show_line_numbers0 allow_pasting0 show_focus_border0
        tab_spacing0 language0 custom_shift_mapping0 =
     \<lparr> text' = text0,
       show_language_text = show_language_text0,
       show_line_numbers = show_line_numbers0,
       allow_pasting = allow_pasting0,
       show_focus_border = show_focus_border0,
       tab_spacing = tab_spacing0,
       language = language0,
       custom_shift_mapping =
         (case custom_shift_mapping0 of None \<Rightarrow> default_shift_mapping | Some m \<Rightarrow> m),
       is_caps = False,
       focused = False,
       type_point = int (length text0),
       code_markdown_value = [],
       language_text_value = [],
       line_numbers_controls = [],
       border_shown = False,
       fired = [] \<rparr>"

text \<open>\<open>_code\<close>: the text in a fenced code block, its backticks escaped.\<close>

definition code :: "CodeField \<Rightarrow> str \<Rightarrow> str" where
  "code self t =
     (let filtered = replace t [BACKTICK] [BACKSLASH, BACKTICK]
      in [BACKTICK, BACKTICK, BACKTICK] @ language self @ [NL] @ filtered @ [NL]
         @ [BACKTICK, BACKTICK, BACKTICK])"

text \<open>\<open>_update_controls\<close>: the markdown value always, the language text and the line
  numbers when they are shown.\<close>

definition update_controls :: "CodeField \<Rightarrow> CodeField" where
  "update_controls self =
     (let self = self\<lparr>code_markdown_value :=
                        code self (if text' self \<noteq> [] then text' self else [SPACE])\<rparr>;
          self = (if show_language_text self
                  then self\<lparr>language_text_value := upper (language self)\<rparr>
                  else self)
      in if show_line_numbers self
         then (let lineCount = int (length (split (text' self) NL)) + 1
               in self\<lparr>line_numbers_controls := range_up 1 lineCount\<rparr>)
         else self)"

text \<open>\<open>_parse_letter\<close>.\<close>

definition parse_letter :: "CodeField \<Rightarrow> str \<Rightarrow> bool \<Rightarrow> str" where
  "parse_letter self letter isShift =
     (let letter = (if letter = py ''Enter'' then [NL] else letter);
          letter = (if isShift
                    then (case custom_shift_mapping self letter of
                            Some shifted \<Rightarrow> shifted
                          | None \<Rightarrow> letter)
                    else letter);
          letter = (if startswith letter (py ''Numpad'')
                    then replace letter (py ''Numpad '') []
                    else letter)
      in if letter = py ''Decimal'' then py ''.''
         else if letter = py ''Add'' then py ''+''
         else if letter = py ''Subtract'' then py ''-''
         else if letter = py ''Divide'' then py ''/''
         else if letter = py ''Multiply'' then py ''*''
         else if letter = py ''Num Lock'' then []
         else if length letter > 1 then []
         else if is_caps self \<or> isShift then upper letter else lower letter)"

text \<open>\<open>on_focus\<close> and \<open>on_change\<close> are the two events of the control; firing one is
  recorded.\<close>

definition on_focus :: "bool \<Rightarrow> CodeField \<Rightarrow> CodeField" where
  "on_focus focus self = self\<lparr>fired := fired self @ [OnFocus focus]\<rparr>"

definition on_change :: "CodeField \<Rightarrow> CodeField" where
  "on_change self = self\<lparr>fired := fired self @ [OnChange]\<rparr>"

definition set_focus :: "bool \<Rightarrow> CodeField \<Rightarrow> CodeField" where
  "set_focus focus self =
     (let self = self\<lparr>focused := focus\<rparr>;
          self = on_focus focus self
      in self\<lparr>border_shown := (focus \<and> show_focus_border self)\<rparr>)"

definition set_type_point :: "int \<Rightarrow> CodeField \<Rightarrow> CodeField" where
  "set_type_point to self =
     self\<lparr>type_point := max 0 (min (int (length (text' self))) to)\<rparr>"

definition insert_letter :: "str \<Rightarrow> CodeField \<Rightarrow> CodeField" where
  "insert_letter letter self =
     (if letter = [] then self
      else if length letter > 1 then self
      else (let self = self\<lparr>text' := slice_to (text' self) (type_point self) @ letter
                                     @ slice_from (text' self) (type_point self)\<rparr>;
                self = set_type_point (type_point self + 1) self;
                self = update_controls self
            in on_change self))"

text \<open>\<open>insert_word\<close>: the loop over the characters of the word.\<close>

definition insert_word :: "str \<Rightarrow> CodeField \<Rightarrow> CodeField" where
  "insert_word word self = fold (\<lambda>letter. insert_letter [letter]) word self"

definition remove_letter :: "CodeField \<Rightarrow> CodeField" where
  "remove_letter self =
     (let self = self\<lparr>text' := slice_to (text' self) (type_point self - 1)
                                @ slice_from (text' self) (type_point self)\<rparr>;
          self = set_type_point (type_point self - 1) self;
          self = update_controls self
      in on_change self)"

definition get_text_up_to_point :: "CodeField \<Rightarrow> str" where
  "get_text_up_to_point self = slice_to (text' self) (type_point self)"

definition get_text_after_point :: "CodeField \<Rightarrow> str" where
  "get_text_after_point self = slice_from (text' self) (type_point self)"

definition on_container_click :: "CodeField \<Rightarrow> CodeField" where
  "on_container_click self = set_focus (\<not> focused self) self"

text \<open>\<open>on_keyboard_input\<close>. Every branch of the source that ends in \<open>return\<close> is a
  branch here; the branch of the tab key does not return, so the event goes on through
  the tests below it.\<close>

definition on_keyboard_input :: "Page \<Rightarrow> KeyboardEvent \<Rightarrow> CodeField \<Rightarrow> CodeField" where
  "on_keyboard_input page event self =
     (if \<not> focused self then self
      else let letter = key event in
        if letter = py ''Backspace'' then
          (if \<not> ctrl event then remove_letter self
           else (let locationOfSpace = rfind (get_text_up_to_point self) [SPACE]
                 in fold (\<lambda>_. remove_letter)
                      (range_down (type_point self)
                         (if locationOfSpace \<noteq> - 1 then locationOfSpace else 0))
                      self))
        else if letter = py ''Escape'' then set_focus False self
        else if letter = py ''Caps Lock'' then self\<lparr>is_caps := \<not> is_caps self\<rparr>
        else if letter = py ''Arrow Left'' then
          (if ctrl event
           then (let textBeforePoint = get_text_up_to_point self;
                     spaceLocation = rfind textBeforePoint [SPACE]
                 in set_type_point (if spaceLocation \<noteq> - 1 then spaceLocation else 0) self)
           else set_type_point (type_point self - 1) self)
        else let self = (if letter = py ''Tab''
                         then insert_word (replicate (nat (tab_spacing self)) SPACE) self
                         else self) in
        if letter = py ''Arrow Right'' then
          (if ctrl event
           then (let charactersBeforePoint = int (length (get_text_up_to_point self));
                     textAfterPoint = get_text_after_point self;
                     spaceLocation = find textAfterPoint [SPACE]
                 in set_type_point
                      (charactersBeforePoint
                         + (if spaceLocation \<noteq> - 1 then type_point self + spaceLocation
                            else int (length textAfterPoint)))
                      self)
           else set_type_point (type_point self + 1) self)
        else if letter = py ''Arrow Up'' then
          (let locationOfNewline = rfind (get_text_up_to_point self) [NL]
           in set_type_point
                (if locationOfNewline \<noteq> - 1 then locationOfNewline else type_point self) self)
        else if letter = py ''Arrow Down'' then
          (let charactersBeforePoint = int (length (get_text_up_to_point self));
               locationOfNewline = find (get_text_after_point self) [NL]
           in set_type_point
                (charactersBeforePoint
                   + (if locationOfNewline \<noteq> - 1 then type_point self + locationOfNewline
                      else int (length (get_text_after_point self))))
                self)
        else if ctrl event \<and> letter = py ''V'' then insert_word (clipboard page) self
        else (let letter = parse_letter self letter (shift event)
              in if letter = [] then self else insert_letter letter self))"


section \<open>Notions of the specification\<close>

text \<open>The cursor invariant of the text buffer: the type point is an offset into the
  text.\<close>

definition cursor_in_range :: "CodeField \<Rightarrow> bool" where
  "cursor_in_range self \<longleftrightarrow>
     0 \<le> type_point self \<and> type_point self \<le> int (length (text' self))"





text \<open>The escaping of the fenced block, character by character.\<close>

definition escape_backtick :: "pychar \<Rightarrow> str" where
  "escape_backtick c = (if c = BACKTICK then [BACKSLASH, BACKTICK] else [c])"

text \<open>The operations on a control: the methods of the text buffer, called directly, and
  the two handlers the page calls. A run performs a list of them in order.\<close>

datatype operation =
    InsertLetter str
  | InsertWord str
  | RemoveLetter
  | SetTypePoint int
  | KeyboardInput Page KeyboardEvent
  | ContainerClick

fun perform :: "operation \<Rightarrow> CodeField \<Rightarrow> CodeField" where
  "perform (InsertLetter letter) self = insert_letter letter self"
| "perform (InsertWord word) self = insert_word word self"
| "perform RemoveLetter self = remove_letter self"
| "perform (SetTypePoint to) self = set_type_point to self"
| "perform (KeyboardInput page event) self = on_keyboard_input page event self"
| "perform ContainerClick self = on_container_click self"

definition run :: "operation list \<Rightarrow> CodeField \<Rightarrow> CodeField" where
  "run ops self = fold perform ops self"


section \<open>Sample controls and events\<close>

text \<open>A control built with the defaults of the constructor around a given text and
  clicked once, so that it has the focus and its type point at the end of the text; key
  events without and with a modifier; a page with a clipboard.\<close>

definition clicked_field :: "str \<Rightarrow> CodeField" where
  "clicked_field t =
     on_container_click (init t True True True True 4 (py ''python'') None)"

definition press :: "str \<Rightarrow> KeyboardEvent" where
  "press k = \<lparr>key = k, ctrl = False, shift = False\<rparr>"

definition press_ctrl :: "str \<Rightarrow> KeyboardEvent" where
  "press_ctrl k = \<lparr>key = k, ctrl = True, shift = False\<rparr>"

definition page_with :: "str \<Rightarrow> Page" where
  "page_with t = \<lparr>clipboard = t\<rparr>"

text \<open>The text \<open>ab\<close> with the type point moved to its start by two presses of the left
  arrow.\<close>

definition field_ab_at_start :: CodeField where
  "field_ab_at_start =
     run [KeyboardInput (page_with []) (press (py ''Arrow Left'')),
          KeyboardInput (page_with []) (press (py ''Arrow Left''))]
       (clicked_field (py ''ab''))"

text \<open>The text \<open>a bc def ghi\<close> with the type point set after the first space.\<close>

definition field_words_at_2 :: CodeField where
  "field_words_at_2 = set_type_point 2 (clicked_field (py ''a bc def ghi''))"

text \<open>The three lines \<open>a\<close>, \<open>b\<close>, \<open>c\<close>, without a newline at the end.\<close>

definition three_lines :: str where
  "three_lines = [C (CHR ''a''), NL, C (CHR ''b''), NL, C (CHR ''c'')]"


text \<open>A run on the empty buffer that starts with a removal and sets the type point
  beyond both ends of the text.\<close>

definition sample_ops :: "operation list" where
  "sample_ops =
     [RemoveLetter, SetTypePoint 99, InsertLetter (py ''a''), SetTypePoint (- 5),
      KeyboardInput (page_with (py ''xy'')) (press_ctrl (py ''V'')),
      KeyboardInput (page_with []) (press (py ''Arrow Right'')),
      KeyboardInput (page_with []) (press (py ''Backspace''))]"


section \<open>Facts about the string primitives\<close>

lemma startswith_single [simp]: "startswith (x # s) [c] \<longleftrightarrow> x = c"
  by (simp add: startswith_def)

lemma rfind_at_absent: "c \<notin> set s \<Longrightarrow> rfind_at s [c] k best = best"
  by (induction s arbitrary: k best) auto

lemma rfind_at_present:
  "c \<in> set s \<Longrightarrow>
   \<exists>i < length s. rfind_at s [c] k best = k + int i \<and> s ! i = c \<and> c \<notin> set (drop (Suc i) s)"
proof (induction s arbitrary: k best)
  case Nil
  then show ?case by simp
next
  case (Cons x s)
  show ?case
  proof (cases "c \<in> set s")
    case True
    from Cons.IH [OF True, of "k + 1" "if x = c then k else best"]
    obtain i where "i < length s"
      "rfind_at s [c] (k + 1) (if x = c then k else best) = k + 1 + int i"
      "s ! i = c" "c \<notin> set (drop (Suc i) s)"
      by blast
    then show ?thesis
      by (intro exI [of _ "Suc i"]) simp
  next
    case False
    with Cons.prems have "x = c" by simp
    with False show ?thesis
      by (intro exI [of _ 0]) (simp add: rfind_at_absent)
  qed
qed

lemma rfind_absent: "c \<notin> set s \<Longrightarrow> rfind s [c] = - 1"
  by (simp add: rfind_def rfind_at_absent)

lemma rfind_present:
  assumes "c \<in> set s"
  obtains i where "i < length s" "rfind s [c] = int i" "s ! i = c" "c \<notin> set (drop (Suc i) s)"
  using rfind_at_present [OF assms, of 0 "- 1"] unfolding rfind_def by auto

lemma find_at_absent: "c \<notin> set s \<Longrightarrow> find_at s [c] k = - 1"
  by (induction s arbitrary: k) auto

lemma find_at_present:
  "c \<in> set s \<Longrightarrow> find_at s [c] k = k + int (length (takeWhile (\<lambda>x. x \<noteq> c) s))"
  by (induction s arbitrary: k) auto

lemma find_absent: "c \<notin> set s \<Longrightarrow> find s [c] = - 1"
  by (simp add: find_def find_at_absent)

lemma find_present:
  "c \<in> set s \<Longrightarrow> find s [c] = int (length (takeWhile (\<lambda>x. x \<noteq> c) s))"
  by (simp add: find_def find_at_present)

text \<open>The case mappings at the ends of their ranges and at the characters that do not
  move by 32.\<close>

lemma case_mapping_samples:
  "upper (py ''az'') = py ''AZ''"
  "lower (py ''AZ'') = py ''az''"
  "upper (py ''1!'') = py ''1!''"
  "upper [C (CHR 0xE0), C (CHR 0xE9), C (CHR 0xFE)] = [C (CHR 0xC0), C (CHR 0xC9), C (CHR 0xDE)]"
  "lower [C (CHR 0xC0), C (CHR 0xC9), C (CHR 0xDE)] = [C (CHR 0xE0), C (CHR 0xE9), C (CHR 0xFE)]"
  "upper [C (CHR 0xF7)] = [C (CHR 0xF7)]"
  "lower [C (CHR 0xD7)] = [C (CHR 0xD7)]"
  "upper [C (CHR 0xDF)] = py ''SS''"
  "lower [C (CHR 0xDF)] = [C (CHR 0xDF)]"
  "upper [C (CHR 0xB5)] = [GREEK_CAPITAL_MU]"
  "upper [C (CHR 0xFF)] = [CAPITAL_Y_DIAERESIS]"
  "lower [CAPITAL_Y_DIAERESIS] = [C (CHR 0xFF)]"
  "lower [GREEK_CAPITAL_MU] = [GREEK_SMALL_MU]"
  "upper [GREEK_SMALL_MU] = [GREEK_CAPITAL_MU]"
  by code_simp+

lemma nat_int_pred [simp]: "nat (int n - 1) = n - Suc 0"
  by arith


section \<open>What each operation does to the fields\<close>

lemma update_controls_fields [simp]:
  "text' (update_controls s) = text' s"
  "type_point (update_controls s) = type_point s"
  "focused (update_controls s) = focused s"
  "is_caps (update_controls s) = is_caps s"
  "fired (update_controls s) = fired s"
  by (simp_all add: update_controls_def Let_def)

lemma on_change_fields [simp]:
  "text' (on_change s) = text' s"
  "type_point (on_change s) = type_point s"
  "focused (on_change s) = focused s"
  "is_caps (on_change s) = is_caps s"
  "fired (on_change s) = fired s @ [OnChange]"
  by (simp_all add: on_change_def)

lemma set_type_point_fields [simp]:
  "text' (set_type_point to s) = text' s"
  "type_point (set_type_point to s) = max 0 (min (int (length (text' s))) to)"
  "focused (set_type_point to s) = focused s"
  "is_caps (set_type_point to s) = is_caps s"
  "fired (set_type_point to s) = fired s"
  by (simp_all add: set_type_point_def)

lemma set_focus_fields [simp]:
  "text' (set_focus b s) = text' s"
  "type_point (set_focus b s) = type_point s"
  "focused (set_focus b s) = b"
  "is_caps (set_focus b s) = is_caps s"
  "fired (set_focus b s) = fired s @ [OnFocus b]"
  by (simp_all add: set_focus_def on_focus_def Let_def)

lemma remove_letter_fields [simp]:
  "focused (remove_letter s) = focused s"
  "is_caps (remove_letter s) = is_caps s"
  "fired (remove_letter s) = fired s @ [OnChange]"
  by (simp_all add: remove_letter_def Let_def)

lemma text_remove_letter:
  "text' (remove_letter s) =
     slice_to (text' s) (type_point s - 1) @ slice_from (text' s) (type_point s)"
  by (simp add: remove_letter_def Let_def)

lemma type_point_remove_letter:
  "type_point (remove_letter s) =
     max 0 (min (int (length (text' (remove_letter s)))) (type_point s - 1))"
  by (simp add: remove_letter_def Let_def)

lemma insert_letter_fields [simp]:
  "focused (insert_letter l s) = focused s"
  "is_caps (insert_letter l s) = is_caps s"
  by (simp_all add: insert_letter_def Let_def)

lemma insert_letter_single:
  "text' (insert_letter [c] s) =
     slice_to (text' s) (type_point s) @ [c] @ slice_from (text' s) (type_point s)"
  "type_point (insert_letter [c] s) =
     max 0 (min (int (length (text' (insert_letter [c] s)))) (type_point s + 1))"
  "fired (insert_letter [c] s) = fired s @ [OnChange]"
  by (simp_all add: insert_letter_def Let_def)

lemma remove_letter_at_start:
  assumes "type_point s = 0"
  shows "text' (remove_letter s) = butlast (text' s) @ text' s"
    and "type_point (remove_letter s) = 0"
  using assms
  by (simp_all add: text_remove_letter type_point_remove_letter slice_to_def slice_from_def
      butlast_conv_take)

lemma remove_letter_inside:
  assumes "0 < type_point s" "type_point s \<le> int (length (text' s))"
  shows "text' (remove_letter s) =
           take (nat (type_point s) - 1) (text' s) @ drop (nat (type_point s)) (text' s)"
    and "type_point (remove_letter s) = type_point s - 1"
  using assms
  by (simp_all add: text_remove_letter type_point_remove_letter slice_to_def slice_from_def
      nat_diff_distrib min_def)


section \<open>The cursor invariant, operation by operation\<close>

lemma cursor_in_range_set_type_point [simp]: "cursor_in_range (set_type_point to s)"
  by (simp add: cursor_in_range_def)

lemma cursor_in_range_remove_letter [simp]: "cursor_in_range (remove_letter s)"
  by (simp add: cursor_in_range_def type_point_remove_letter)

lemma cursor_in_range_insert_letter:
  "cursor_in_range s \<Longrightarrow> cursor_in_range (insert_letter l s)"
  by (simp add: insert_letter_def Let_def cursor_in_range_def)

lemma cursor_in_range_insert_word:
  "cursor_in_range s \<Longrightarrow> cursor_in_range (insert_word w s)"
  unfolding insert_word_def
  by (induction w arbitrary: s) (simp_all add: cursor_in_range_insert_letter)


section \<open>The sample controls\<close>

lemma field_ab_at_start_state:
  "text' field_ab_at_start = py ''ab''"
  "type_point field_ab_at_start = 0"
  "focused field_ab_at_start"
  by (simp_all add: field_ab_at_start_def run_def clicked_field_def on_container_click_def
      init_def press_def page_with_def on_keyboard_input_def)


lemma clicked_field_state [simp]:
  "text' (clicked_field t) = t"
  "type_point (clicked_field t) = int (length t)"
  "focused (clicked_field t)"
  "\<not> is_caps (clicked_field t)"
  "show_line_numbers (clicked_field t)"
  "language (clicked_field t) = py ''python''"
  "custom_shift_mapping (clicked_field t) = default_shift_mapping"
  "fired (clicked_field t) = [OnFocus True]"
  by (simp_all add: clicked_field_def on_container_click_def init_def set_focus_def
      on_focus_def Let_def)


section \<open>Splitting and replacing\<close>

lemma length_split_acc:
  "length (split_acc s sep cur) = Suc (length (filter (\<lambda>c. c = sep) s))"
  by (induction s arbitrary: cur) simp_all

lemma length_split: "length (split s sep) = Suc (length (filter (\<lambda>c. c = sep) s))"
  by (simp add: split_def length_split_acc)

lemma line_numbers_update_controls:
  "line_numbers_controls (update_controls s) =
     (if show_line_numbers s then range_up 1 (int (length (split (text' s) NL)) + 1)
      else line_numbers_controls s)"
  by (simp add: update_controls_def Let_def)

lemma upto_1_3: "[1..3::int] = [1, 2, 3]"
  by (simp add: upto.simps)

lemma replace_ne_single:
  "replace_ne s [b] new = concat (map (\<lambda>c. if c = b then new else [c]) s)"
  by (induction s) simp_all

lemma replace_backtick:
  "replace s [BACKTICK] [BACKSLASH, BACKTICK] = concat (map escape_backtick s)"
proof -
  have "(\<lambda>c. if c = BACKTICK then [BACKSLASH, BACKTICK] else [c]) = escape_backtick"
    by (simp add: fun_eq_iff escape_backtick_def)
  then show ?thesis
    by (simp add: replace_def replace_ne_single)
qed


section \<open>Deleting at the start of the buffer\<close>

text \<open>
  C1. The claim: with the cursor at offset 0, \<open>remove_letter\<close> (and a plain Backspace
  routed to it) changes nothing. The code does not do that on a text that is not empty:
  \<open>self.text[:self.type_point - 1]\<close> is \<open>self.text[:-1]\<close> there, the text without its
  last character, so the new text is the old one with that copy in front of it. On the
  text \<open>ab\<close> with the type point at 0 (reached by two presses of the left arrow) the
  text becomes \<open>aab\<close>; the type point stays at 0.
\<close>

theorem backspace_at_start_repeats_text:
  "type_point field_ab_at_start = 0
   \<and> text' field_ab_at_start = py ''ab''
   \<and> text' (remove_letter field_ab_at_start) = py ''aab''
   \<and> text' (on_keyboard_input (page_with []) (press (py ''Backspace'')) field_ab_at_start) = py ''aab''
   \<and> type_point (on_keyboard_input (page_with []) (press (py ''Backspace'')) field_ab_at_start) = 0"
  by (simp add: field_ab_at_start_state on_keyboard_input_def press_def
      text_remove_letter type_point_remove_letter slice_to_def slice_from_def)


section \<open>Keyboard events without the focus\<close>

text \<open>
  C9. A keyboard event that reaches a control without the focus leaves the whole state
  as it is: text, type point, caps state, focus, the values of the controls and the list
  of fired notifications, to which nothing is added.
\<close>

theorem unfocused_ignores_keyboard:
  "\<not> focused self \<Longrightarrow> on_keyboard_input page event self = self"
  by (simp add: on_keyboard_input_def)

theorem unfocused_ignores_keyboard_witness:
  "\<not> focused (init (py ''ab'') True True True True 4 (py ''python'') None)
   \<and> on_keyboard_input (page_with (py ''xyz'')) (press_ctrl (py ''V''))
        (init (py ''ab'') True True True True 4 (py ''python'') None)
      = init (py ''ab'') True True True True 4 (py ''python'') None"
proof -
  have h: "\<not> focused (init (py ''ab'') True True True True 4 (py ''python'') None)"
    by (simp add: init_def)
  from h unfocused_ignores_keyboard [OF h] show ?thesis by simp
qed


section \<open>The line numbers\<close>

text \<open>
  C5, as the claim has it: the line-number labels run from 1 to the number of lines plus
  one, so the three lines \<open>a\<close>, \<open>b\<close>, \<open>c\<close> get the labels 1, 2, 3, 4. The code does not
  produce a fourth label: \<open>lineCount\<close> is the number of pieces plus one, and
  \<open>range(1, lineCount)\<close> stops before it.
\<close>

theorem line_numbers_three_lines_counterexample:
  "line_numbers_controls (update_controls (clicked_field three_lines)) \<noteq> [1, 2, 3, 4]"
proof -
  have h: "show_line_numbers (clicked_field three_lines)"
    by simp
  have t: "text' (clicked_field three_lines) = three_lines"
    by simp
  have n: "length (split three_lines NL) = 3"
    by (simp add: three_lines_def split_def)
  from h t n show ?thesis
    by (simp add: line_numbers_update_controls range_up_def upto_1_3)
qed

text \<open>
  C5, amended: when the line numbers are shown, the labels are 1 up to the number of
  pieces that splitting the text on the newline gives, one label for each line and none
  beyond the last; that number is the number of newlines in the text plus one.
\<close>

theorem line_numbers_one_per_line:
  "show_line_numbers self \<Longrightarrow>
     line_numbers_controls (update_controls self) = [1..int (length (split (text' self) NL))]
     \<and> length (split (text' self) NL) = Suc (length (filter (\<lambda>c. c = NL) (text' self)))"
  by (simp add: line_numbers_update_controls range_up_def length_split)

theorem line_numbers_one_per_line_witness:
  "show_line_numbers (clicked_field three_lines)
   \<and> line_numbers_controls (update_controls (clicked_field three_lines)) = [1, 2, 3]
   \<and> length (split three_lines NL) = 3"
proof -
  have h: "show_line_numbers (clicked_field three_lines)"
    by simp
  have t: "text' (clicked_field three_lines) = three_lines"
    by simp
  have n: "length (split three_lines NL) = 3"
    by (simp add: three_lines_def split_def)
  from line_numbers_one_per_line [OF h] h t n show ?thesis
    by (simp add: upto_1_3)
qed


section \<open>The fenced code block\<close>

text \<open>
  C7. The value handed to the markdown control is the text with a backslash put before
  each backtick, between the opening fence with the language and the closing fence, each
  on a line of its own; for the empty text a single space stands between the fences.
  For the text backtick, \<open>x\<close>, backtick and the language \<open>python\<close> this is the string
  of the specification.
\<close>

theorem fenced_code_block:
  "code_markdown_value (update_controls self) =
     [BACKTICK, BACKTICK, BACKTICK] @ language self @ [NL]
     @ concat (map escape_backtick (if text' self = [] then [SPACE] else text' self))
     @ [NL] @ [BACKTICK, BACKTICK, BACKTICK]"
  by (simp add: update_controls_def Let_def code_def replace_backtick)

theorem fenced_code_block_witness:
  "code_markdown_value (update_controls (clicked_field [BACKTICK, C (CHR ''x''), BACKTICK])) =
     [BACKTICK, BACKTICK, BACKTICK] @ (py ''python'') @ [NL]
     @ [BACKSLASH, BACKTICK, C (CHR ''x''), BACKSLASH, BACKTICK]
     @ [NL] @ [BACKTICK, BACKTICK, BACKTICK]
   \<and> code_markdown_value (update_controls (clicked_field [])) =
     [BACKTICK, BACKTICK, BACKTICK] @ (py ''python'') @ [NL] @ [SPACE] @ [NL]
     @ [BACKTICK, BACKTICK, BACKTICK]"
  using fenced_code_block [of "clicked_field [BACKTICK, C (CHR ''x''), BACKTICK]"]
    fenced_code_block [of "clicked_field []"]
  by (simp add: escape_backtick_def)


section \<open>Word-wise movement and deletion\<close>

lemma length_slice_to: "length (slice_to s i) \<le> length s"
  unfolding slice_to_def by (cases "i < 0") simp_all

lemma slices_in_range:
  assumes "cursor_in_range s"
  shows "get_text_up_to_point s = take (nat (type_point s)) (text' s)"
    and "get_text_after_point s = drop (nat (type_point s)) (text' s)"
    and "length (get_text_up_to_point s) = nat (type_point s)"
  using assms
  by (auto simp: cursor_in_range_def get_text_up_to_point_def get_text_after_point_def
      slice_to_def slice_from_def min_def)

lemma set_type_point_in_range:
  "i \<le> length (text' s) \<Longrightarrow> set_type_point (int i) s = s\<lparr>type_point := int i\<rparr>"
  by (simp add: set_type_point_def)

lemma on_keyboard_input_ctrl_left:
  assumes "focused self" "key event = py ''Arrow Left''" "ctrl event"
  shows "on_keyboard_input page event self =
           set_type_point
             (if rfind (get_text_up_to_point self) [SPACE] \<noteq> - 1
              then rfind (get_text_up_to_point self) [SPACE] else 0) self"
  using assms by (simp add: on_keyboard_input_def Let_def)

lemma fold_remove_letter:
  "type_point s = int p \<Longrightarrow> p \<le> length (text' s) \<Longrightarrow> length xs \<le> p \<Longrightarrow>
   text' (fold (\<lambda>_. remove_letter) xs s) = take (p - length xs) (text' s) @ drop p (text' s)
   \<and> type_point (fold (\<lambda>_. remove_letter) xs s) = int (p - length xs)"
proof (induction xs arbitrary: s p)
  case Nil
  then show ?case by simp
next
  case (Cons x xs)
  from Cons.prems obtain q where q: "p = Suc q"
    by (cases p) auto
  have pos: "0 < type_point s" "type_point s \<le> int (length (text' s))"
    using Cons.prems q by simp_all
  have nq: "nat (type_point s) = Suc q"
    using Cons.prems(1) q by simp
  have t: "text' (remove_letter s) = take q (text' s) @ drop (Suc q) (text' s)"
    unfolding remove_letter_inside(1) [OF pos] nq by simp
  have c: "type_point (remove_letter s) = int q"
    unfolding remove_letter_inside(2) [OF pos] Cons.prems(1) q by simp
  have l: "q \<le> length (text' (remove_letter s))"
    using Cons.prems q by (simp add: t)
  have n: "length xs \<le> q"
    using Cons.prems q by simp
  from Cons.IH [OF c l n] Cons.prems q show ?case
    by (simp add: t min_def)
qed

lemma length_range_down: "length (range_down a b) = nat (a - b)"
  by (simp add: range_down_def)

lemma on_keyboard_input_ctrl_backspace:
  assumes "focused self" "key event = py ''Backspace''" "ctrl event"
  shows "on_keyboard_input page event self =
           fold (\<lambda>_. remove_letter)
             (range_down (type_point self)
                (if rfind (get_text_up_to_point self) [SPACE] \<noteq> - 1
                 then rfind (get_text_up_to_point self) [SPACE] else 0)) self"
  using assms by (simp add: on_keyboard_input_def Let_def)

lemma clicked_field_before [simp]:
  "get_text_up_to_point (clicked_field t) = t"
  "get_text_after_point (clicked_field t) = []"
  "cursor_in_range (clicked_field t)"
  by (simp_all add: get_text_up_to_point_def get_text_after_point_def slice_to_def
      slice_from_def cursor_in_range_def)

lemma press_ctrl_fields [simp]:
  "key (press_ctrl k) = k" "ctrl (press_ctrl k)" "\<not> shift (press_ctrl k)"
  by (simp_all add: press_ctrl_def)

lemma space_index_hello_world:
  "i < length (py ''hello world'') \<Longrightarrow> (py ''hello world'') ! i = SPACE \<Longrightarrow> i = 5"
  by (simp add: nth_Cons' less_Suc_eq split: if_splits)

lemma on_keyboard_input_ctrl_right:
  assumes "focused self" "key event = py ''Arrow Right''" "ctrl event"
  shows "on_keyboard_input page event self =
           set_type_point
             (int (length (get_text_up_to_point self))
                + (if find (get_text_after_point self) [SPACE] \<noteq> - 1
                   then type_point self + find (get_text_after_point self) [SPACE]
                   else int (length (get_text_after_point self)))) self"
  using assms by (simp add: on_keyboard_input_def Let_def)

lemma ctrl_right_target:
  assumes "focused self" "cursor_in_range self" "key event = py ''Arrow Right''" "ctrl event"
  shows "type_point (on_keyboard_input page event self) =
           (if SPACE \<in> set (get_text_after_point self)
            then min (int (length (text' self)))
                   (2 * type_point self
                      + int (length (takeWhile (\<lambda>c. c \<noteq> SPACE) (get_text_after_point self))))
            else int (length (text' self)))"
proof (cases "SPACE \<in> set (get_text_after_point self)")
  case True
  have "0 \<le> type_point self"
    using assms(2) by (simp add: cursor_in_range_def)
  then show ?thesis
    using True slices_in_range(3) [OF assms(2)]
    by (simp add: on_keyboard_input_ctrl_right [OF assms(1) assms(3) assms(4)]
        find_present max_def)
next
  case False
  have "0 \<le> type_point self" "type_point self \<le> int (length (text' self))"
    using assms(2) by (simp_all add: cursor_in_range_def)
  then show ?thesis
    using False slices_in_range [OF assms(2)]
    by (simp add: on_keyboard_input_ctrl_right [OF assms(1) assms(3) assms(4)]
        find_absent)
qed


text \<open>
  C3, as the claim has it: the left arrow with ctrl moves the cursor to the position just
  after the last space before it, so from the end of \<open>hello world\<close> to index 6. The
  code passes the index of the space itself to \<open>set_type_point\<close>: the cursor lands on
  index 5, before the space.
\<close>

theorem ctrl_left_hello_world_counterexample:
  "type_point (on_keyboard_input (page_with []) (press_ctrl (py ''Arrow Left''))
                 (clicked_field (py ''hello world''))) \<noteq> 6"
proof -
  have "type_point (on_keyboard_input (page_with []) (press_ctrl (py ''Arrow Left''))
                 (clicked_field (py ''hello world''))) = 5"
    by code_simp
  then show ?thesis by simp
qed

text \<open>
  C3, amended: for a control that has the focus, the left arrow with ctrl sets the cursor
  to the index of the last space in the text before the cursor (so the cursor stands just
  before that space), or to 0 when that text has no space; nothing else of the state
  changes. From the end of \<open>hello world\<close> the cursor goes to 5; on \<open>hello\<close> it goes to
  0.
\<close>

theorem ctrl_left_moves_to_last_space:
  assumes "focused self" "key event = py ''Arrow Left''" "ctrl event"
  shows "(SPACE \<in> set (get_text_up_to_point self) \<longrightarrow>
            (\<exists>i < length (get_text_up_to_point self).
               get_text_up_to_point self ! i = SPACE
               \<and> SPACE \<notin> set (drop (Suc i) (get_text_up_to_point self))
               \<and> on_keyboard_input page event self = self\<lparr>type_point := int i\<rparr>))
         \<and> (SPACE \<notin> set (get_text_up_to_point self) \<longrightarrow>
               on_keyboard_input page event self = self\<lparr>type_point := 0\<rparr>)"
proof (intro conjI impI)
  assume present: "SPACE \<in> set (get_text_up_to_point self)"
  then obtain i where i: "i < length (get_text_up_to_point self)"
      "rfind (get_text_up_to_point self) [SPACE] = int i"
      "get_text_up_to_point self ! i = SPACE"
      "SPACE \<notin> set (drop (Suc i) (get_text_up_to_point self))"
    by (rule rfind_present)
  have "i \<le> length (text' self)"
    using i(1) length_slice_to [of "text' self" "type_point self"]
    by (simp add: get_text_up_to_point_def)
  then have "on_keyboard_input page event self = self\<lparr>type_point := int i\<rparr>"
    using i(2) by (simp add: on_keyboard_input_ctrl_left [OF assms] set_type_point_in_range)
  with i show "\<exists>i < length (get_text_up_to_point self).
               get_text_up_to_point self ! i = SPACE
               \<and> SPACE \<notin> set (drop (Suc i) (get_text_up_to_point self))
               \<and> on_keyboard_input page event self = self\<lparr>type_point := int i\<rparr>"
    by blast
next
  assume "SPACE \<notin> set (get_text_up_to_point self)"
  then have "rfind (get_text_up_to_point self) [SPACE] = - 1"
    by (rule rfind_absent)
  then show "on_keyboard_input page event self = self\<lparr>type_point := 0\<rparr>"
    using set_type_point_in_range [of 0 self]
    by (simp add: on_keyboard_input_ctrl_left [OF assms])
qed

theorem ctrl_left_moves_to_last_space_witness:
  "on_keyboard_input (page_with []) (press_ctrl (py ''Arrow Left'')) (clicked_field (py ''hello world''))
     = (clicked_field (py ''hello world''))\<lparr>type_point := 5\<rparr>
   \<and> on_keyboard_input (page_with []) (press_ctrl (py ''Arrow Left'')) (clicked_field (py ''hello''))
     = (clicked_field (py ''hello''))\<lparr>type_point := 0\<rparr>"
proof -
  have a: "focused (clicked_field (py ''hello world''))" "focused (clicked_field (py ''hello''))"
    by simp_all
  have k: "key (press_ctrl (py ''Arrow Left'')) = py ''Arrow Left''" "ctrl (press_ctrl (py ''Arrow Left''))"
    by simp_all
  from ctrl_left_moves_to_last_space [OF a(1) k, of "page_with []"]
  obtain i where "i < length (py ''hello world'')" "(py ''hello world'') ! i = SPACE"
    "on_keyboard_input (page_with []) (press_ctrl (py ''Arrow Left'')) (clicked_field (py ''hello world''))
       = (clicked_field (py ''hello world''))\<lparr>type_point := int i\<rparr>"
    by auto
  moreover from this have "i = 5"
    using space_index_hello_world by blast
  moreover from ctrl_left_moves_to_last_space [OF a(2) k, of "page_with []"]
  have "on_keyboard_input (page_with []) (press_ctrl (py ''Arrow Left'')) (clicked_field (py ''hello''))
     = (clicked_field (py ''hello''))\<lparr>type_point := 0\<rparr>"
    by simp
  ultimately show ?thesis by simp
qed

text \<open>
  C2, as the claim has it: Backspace with ctrl deletes back to, but not past, the previous
  space, so \<open>hello world\<close> with the cursor at the end becomes \<open>hello\<close> followed by the
  space. The loop of the code runs from the cursor down to the index of the space,
  that index excluded, which is one removal for each character after the space and one
  for the space: the space goes too.
\<close>

theorem ctrl_backspace_hello_world_counterexample:
  "text' (on_keyboard_input (page_with []) (press_ctrl (py ''Backspace''))
            (clicked_field (py ''hello world''))) \<noteq> py ''hello ''"
proof -
  have "text' (on_keyboard_input (page_with []) (press_ctrl (py ''Backspace''))
            (clicked_field (py ''hello world''))) = py ''hello''"
    by code_simp
  then show ?thesis by simp
qed

text \<open>
  C2, amended: for a control that has the focus and a cursor in range, Backspace with
  ctrl deletes the characters from the cursor back to the last space before it, that
  space included, and leaves the cursor where the space was; the text after the cursor
  is kept. When there is no space before the cursor, everything before the cursor is
  deleted and the cursor is 0. So \<open>hello world\<close> with the cursor at the end becomes
  \<open>hello\<close> with the cursor at 5.
\<close>

theorem ctrl_backspace_deletes_through_space:
  assumes "focused self" "cursor_in_range self" "key event = py ''Backspace''" "ctrl event"
  shows "(SPACE \<in> set (get_text_up_to_point self) \<longrightarrow>
            (\<exists>i < length (get_text_up_to_point self).
               get_text_up_to_point self ! i = SPACE
               \<and> SPACE \<notin> set (drop (Suc i) (get_text_up_to_point self))
               \<and> text' (on_keyboard_input page event self)
                   = take i (text' self) @ get_text_after_point self
               \<and> type_point (on_keyboard_input page event self) = int i))
         \<and> (SPACE \<notin> set (get_text_up_to_point self) \<longrightarrow>
               text' (on_keyboard_input page event self) = get_text_after_point self
               \<and> type_point (on_keyboard_input page event self) = 0)"
proof -
  let ?p = "nat (type_point self)"
  have tp: "type_point self = int ?p" and le: "?p \<le> length (text' self)"
    using assms(2) unfolding cursor_in_range_def by (simp_all add: nat_le_iff)
  note step = on_keyboard_input_ctrl_backspace [OF assms(1) assms(3) assms(4)]
  show ?thesis
  proof (rule conjI [OF impI impI])
    assume "SPACE \<in> set (get_text_up_to_point self)"
    then obtain i where i: "i < length (get_text_up_to_point self)"
        "rfind (get_text_up_to_point self) [SPACE] = int i"
        "get_text_up_to_point self ! i = SPACE"
        "SPACE \<notin> set (drop (Suc i) (get_text_up_to_point self))"
      by (rule rfind_present)
    have ip: "i < ?p"
      using i(1) slices_in_range(3) [OF assms(2)] by simp
    have len: "length (range_down (type_point self) (int i)) \<le> ?p"
      by (simp add: length_range_down)
    have d: "?p - length (range_down (type_point self) (int i)) = i"
      using ip by (simp add: length_range_down)
    from fold_remove_letter [OF tp le len] d
    have "text' (on_keyboard_input page event self)
            = take i (text' self) @ get_text_after_point self
          \<and> type_point (on_keyboard_input page event self) = int i"
      using i(2) by (simp add: step slices_in_range(2) [OF assms(2)])
    with i show "\<exists>i < length (get_text_up_to_point self).
               get_text_up_to_point self ! i = SPACE
               \<and> SPACE \<notin> set (drop (Suc i) (get_text_up_to_point self))
               \<and> text' (on_keyboard_input page event self)
                   = take i (text' self) @ get_text_after_point self
               \<and> type_point (on_keyboard_input page event self) = int i"
      by blast
  next
    assume "SPACE \<notin> set (get_text_up_to_point self)"
    then have r: "rfind (get_text_up_to_point self) [SPACE] = - 1"
      by (rule rfind_absent)
    have len: "length (range_down (type_point self) 0) \<le> ?p"
      by (simp add: length_range_down)
    from fold_remove_letter [OF tp le len]
    show "text' (on_keyboard_input page event self) = get_text_after_point self
          \<and> type_point (on_keyboard_input page event self) = 0"
      using r by (simp add: step slices_in_range(2) [OF assms(2)] length_range_down)
  qed
qed

theorem ctrl_backspace_deletes_through_space_witness:
  "text' (on_keyboard_input (page_with []) (press_ctrl (py ''Backspace''))
            (clicked_field (py ''hello world''))) = py ''hello''
   \<and> type_point (on_keyboard_input (page_with []) (press_ctrl (py ''Backspace''))
            (clicked_field (py ''hello world''))) = 5
   \<and> text' (on_keyboard_input (page_with []) (press_ctrl (py ''Backspace''))
            (clicked_field (py ''hello''))) = []
   \<and> type_point (on_keyboard_input (page_with []) (press_ctrl (py ''Backspace''))
            (clicked_field (py ''hello''))) = 0"
proof -
  have a: "focused (clicked_field (py ''hello world''))" "focused (clicked_field (py ''hello''))"
    by simp_all
  have c: "cursor_in_range (clicked_field (py ''hello world''))"
    "cursor_in_range (clicked_field (py ''hello''))"
    by simp_all
  have k: "key (press_ctrl (py ''Backspace'')) = py ''Backspace''" "ctrl (press_ctrl (py ''Backspace''))"
    by simp_all
  from ctrl_backspace_deletes_through_space [OF a(1) c(1) k, of "page_with []"]
  obtain i where i: "i < length (py ''hello world'')" "(py ''hello world'') ! i = SPACE"
    "text' (on_keyboard_input (page_with []) (press_ctrl (py ''Backspace''))
        (clicked_field (py ''hello world''))) = take i (py ''hello world'')"
    "type_point (on_keyboard_input (page_with []) (press_ctrl (py ''Backspace''))
        (clicked_field (py ''hello world''))) = int i"
    by auto
  then have "i = 5"
    using space_index_hello_world by blast
  with i have "text' (on_keyboard_input (page_with []) (press_ctrl (py ''Backspace''))
        (clicked_field (py ''hello world''))) = py ''hello''
     \<and> type_point (on_keyboard_input (page_with []) (press_ctrl (py ''Backspace''))
        (clicked_field (py ''hello world''))) = 5"
    by simp
  moreover from ctrl_backspace_deletes_through_space [OF a(2) c(2) k, of "page_with []"]
  have "text' (on_keyboard_input (page_with []) (press_ctrl (py ''Backspace''))
            (clicked_field (py ''hello''))) = []
   \<and> type_point (on_keyboard_input (page_with []) (press_ctrl (py ''Backspace''))
            (clicked_field (py ''hello''))) = 0"
    by simp
  ultimately show ?thesis by simp
qed

text \<open>
  C4. The claim: the right arrow with ctrl sets the cursor to the cursor plus the offset
  of the first space in the text after it. The code adds the cursor twice: once as
  \<open>charactersBeforePoint\<close>, once as \<open>self.type_point\<close>. On the text
  \<open>a bc def ghi\<close> with the cursor at 2 the first space after the cursor is at offset 2,
  so the claim gives 4, the space after \<open>bc\<close>; the code sets the cursor to 6, inside
  \<open>def\<close>. The lemma \<open>ctrl_right_target\<close> above gives the target of the code for every
  control: twice the cursor plus the offset, clipped to the text.
\<close>

theorem ctrl_right_adds_cursor_twice:
  "type_point field_words_at_2 = 2
   \<and> get_text_after_point field_words_at_2 = py ''bc def ghi''
   \<and> find (get_text_after_point field_words_at_2) [SPACE] = 2
   \<and> type_point (on_keyboard_input (page_with []) (press_ctrl (py ''Arrow Right''))
                   field_words_at_2) = 6"
  by code_simp


section \<open>The key translator\<close>









section \<open>The cursor invariant over runs\<close>

lemma cursor_in_range_set_focus [simp]:
  "cursor_in_range (set_focus b s) = cursor_in_range s"
  by (simp add: cursor_in_range_def)

lemma cursor_in_range_caps [simp]:
  "cursor_in_range (s\<lparr>is_caps := c\<rparr>) = cursor_in_range s"
  by (simp add: cursor_in_range_def)

lemma cursor_in_range_fold_remove_letter:
  "cursor_in_range s \<Longrightarrow> cursor_in_range (fold (\<lambda>_. remove_letter) xs s)"
  by (induction xs arbitrary: s) simp_all

lemma cursor_in_range_on_keyboard_input:
  "cursor_in_range s \<Longrightarrow> cursor_in_range (on_keyboard_input page event s)"
  by (simp add: on_keyboard_input_def Let_def cursor_in_range_insert_letter
      cursor_in_range_insert_word cursor_in_range_fold_remove_letter)

lemma cursor_in_range_perform:
  "cursor_in_range s \<Longrightarrow> cursor_in_range (perform operation s)"
  by (cases operation)
    (simp_all add: cursor_in_range_insert_letter cursor_in_range_insert_word
      cursor_in_range_on_keyboard_input on_container_click_def)

lemma cursor_in_range_run:
  "cursor_in_range s \<Longrightarrow> cursor_in_range (run ops s)"
  unfolding run_def
  by (induction ops arbitrary: s) (simp_all add: cursor_in_range_perform)

text \<open>
  C8. From a state whose cursor is in range, after each operation of any sequence of
  operations (inserting a letter or a word, removing a letter, setting the type point to
  any integer, any keyboard event, a click) the cursor is in range again:
  \<open>0 \<le> type_point \<le> len(text)\<close>. The run \<open>sample_ops\<close> starts on the empty
  buffer with a removal and sets the type point to 99 and to -5.
\<close>

theorem cursor_stays_in_range:
  "cursor_in_range self \<Longrightarrow> \<forall>n \<le> length ops. cursor_in_range (run (take n ops) self)"
  by (simp add: cursor_in_range_run)

theorem cursor_stays_in_range_witness:
  "cursor_in_range (clicked_field [])
   \<and> cursor_in_range (run (take 1 sample_ops) (clicked_field []))
   \<and> cursor_in_range (run (take 2 sample_ops) (clicked_field []))
   \<and> cursor_in_range (run (take 3 sample_ops) (clicked_field []))
   \<and> cursor_in_range (run (take 4 sample_ops) (clicked_field []))
   \<and> cursor_in_range (run (take 5 sample_ops) (clicked_field []))
   \<and> cursor_in_range (run (take 6 sample_ops) (clicked_field []))
   \<and> cursor_in_range (run (take 7 sample_ops) (clicked_field []))"
proof -
  have h: "cursor_in_range (clicked_field [])"
    by simp
  have l: "length sample_ops = 7"
    by (simp add: sample_ops_def)
  from cursor_stays_in_range [OF h, of sample_ops]
  have a: "cursor_in_range (run (take n sample_ops) (clicked_field []))" if "n \<le> 7" for n
    using that l by simp
  from h a [of 1] a [of 2] a [of 3] a [of 4] a [of 5] a [of 6] a [of 7] show ?thesis
    by simp
qed


section \<open>Pasting\<close>

lemma update_controls_allow_pasting:
  "(update_controls s)\<lparr>allow_pasting := b\<rparr> = update_controls (s\<lparr>allow_pasting := b\<rparr>)"
  by (simp add: update_controls_def Let_def code_def)

lemma on_change_allow_pasting:
  "(on_change s)\<lparr>allow_pasting := b\<rparr> = on_change (s\<lparr>allow_pasting := b\<rparr>)"
  by (simp add: on_change_def)

lemma set_type_point_allow_pasting:
  "(set_type_point to s)\<lparr>allow_pasting := b\<rparr> = set_type_point to (s\<lparr>allow_pasting := b\<rparr>)"
  by (simp add: set_type_point_def)

lemma set_focus_allow_pasting:
  "(set_focus f s)\<lparr>allow_pasting := b\<rparr> = set_focus f (s\<lparr>allow_pasting := b\<rparr>)"
  by (simp add: set_focus_def on_focus_def Let_def)

lemma text_allow_pasting:
  "(s\<lparr>text' := x\<rparr>)\<lparr>allow_pasting := b\<rparr> = (s\<lparr>allow_pasting := b\<rparr>)\<lparr>text' := x\<rparr>"
  by simp

lemmas inner_allow_pasting =
  update_controls_allow_pasting on_change_allow_pasting set_type_point_allow_pasting
  set_focus_allow_pasting text_allow_pasting

lemma insert_letter_allow_pasting:
  "(insert_letter l s)\<lparr>allow_pasting := b\<rparr> = insert_letter l (s\<lparr>allow_pasting := b\<rparr>)"
  by (simp add: insert_letter_def Let_def inner_allow_pasting)

lemma insert_word_allow_pasting:
  "(insert_word w s)\<lparr>allow_pasting := b\<rparr> = insert_word w (s\<lparr>allow_pasting := b\<rparr>)"
  unfolding insert_word_def
  by (induction w arbitrary: s) (simp_all add: insert_letter_allow_pasting)

lemma remove_letter_allow_pasting:
  "(remove_letter s)\<lparr>allow_pasting := b\<rparr> = remove_letter (s\<lparr>allow_pasting := b\<rparr>)"
  by (simp add: remove_letter_def Let_def inner_allow_pasting)

lemma fold_remove_letter_allow_pasting:
  "(fold (\<lambda>_. remove_letter) xs s)\<lparr>allow_pasting := b\<rparr>
     = fold (\<lambda>_. remove_letter) xs (s\<lparr>allow_pasting := b\<rparr>)"
  by (induction xs arbitrary: s) (simp_all add: remove_letter_allow_pasting)

lemma parse_letter_allow_pasting [simp]:
  "parse_letter (s\<lparr>allow_pasting := b\<rparr>) l sh = parse_letter s l sh"
proof -
  have a: "custom_shift_mapping (s\<lparr>allow_pasting := b\<rparr>) = custom_shift_mapping s"
    by simp
  have c: "is_caps (s\<lparr>allow_pasting := b\<rparr>) = is_caps s"
    by simp
  show ?thesis
    unfolding parse_letter_def a c ..
qed

lemma slices_allow_pasting [simp]:
  "get_text_up_to_point (s\<lparr>allow_pasting := b\<rparr>) = get_text_up_to_point s"
  "get_text_after_point (s\<lparr>allow_pasting := b\<rparr>) = get_text_after_point s"
  by (simp_all add: get_text_up_to_point_def get_text_after_point_def)

lemma caps_allow_pasting:
  "(s\<lparr>is_caps := c\<rparr>)\<lparr>allow_pasting := b\<rparr> = (s\<lparr>allow_pasting := b\<rparr>)\<lparr>is_caps := c\<rparr>"
  by simp

lemma parse_letter_insert_word_allow_pasting:
  "parse_letter (insert_word w (s\<lparr>allow_pasting := b\<rparr>)) l sh
     = parse_letter (insert_word w s) l sh"
  by (simp add: insert_word_allow_pasting [symmetric])

lemma on_keyboard_input_allow_pasting:
  "(on_keyboard_input page event s)\<lparr>allow_pasting := b\<rparr>
     = on_keyboard_input page event (s\<lparr>allow_pasting := b\<rparr>)"
  by (simp add: on_keyboard_input_def Let_def inner_allow_pasting caps_allow_pasting
      insert_letter_allow_pasting insert_word_allow_pasting remove_letter_allow_pasting
      fold_remove_letter_allow_pasting parse_letter_insert_word_allow_pasting)

lemma on_keyboard_input_paste:
  assumes "focused self" "ctrl event" "key event = py ''V''"
  shows "on_keyboard_input page event self = insert_word (clipboard page) self"
  using assms by (simp add: on_keyboard_input_def Let_def)

lemma insert_letter_in_range:
  assumes "type_point s = int p" "p \<le> length (text' s)"
  shows "text' (insert_letter [c] s) = take p (text' s) @ c # drop p (text' s)"
    and "type_point (insert_letter [c] s) = int (Suc p)"
    and "fired (insert_letter [c] s) = fired s @ [OnChange]"
  using assms by (simp_all add: insert_letter_single slice_to_def slice_from_def)

lemma insert_word_in_range:
  "type_point s = int p \<Longrightarrow> p \<le> length (text' s) \<Longrightarrow>
   text' (insert_word w s) = take p (text' s) @ w @ drop p (text' s)
   \<and> type_point (insert_word w s) = int (p + length w)
   \<and> fired (insert_word w s) = fired s @ replicate (length w) OnChange"
proof (induction w arbitrary: s p)
  case Nil
  then show ?case by (simp add: insert_word_def)
next
  case (Cons c w)
  note step = insert_letter_in_range [OF Cons.prems, of c]
  have l: "Suc p \<le> length (text' (insert_letter [c] s))"
    using Cons.prems(2) by (simp add: step(1))
  have unfold: "insert_word (c # w) s = insert_word w (insert_letter [c] s)"
    by (simp add: insert_word_def)
  from Cons.IH [OF step(2) l] Cons.prems(2) show ?case
    by (simp add: unfold step replicate_app_Cons_same)
qed

text \<open>
  C10. For a control that has the focus, a keyboard event with ctrl and the key \<open>V\<close>
  inserts the text of the clipboard as a word, letter by letter, whatever the value of
  \<open>allow_pasting\<close>: with the cursor in range the clipboard text stands between the
  text before and the text after the cursor, the cursor has advanced by its length and
  one change notification was fired for each character. The handler never reads the
  flag: setting it before any event or after it gives the same state.
\<close>

theorem paste_ignores_allow_pasting:
  assumes "focused self" "ctrl event" "key event = py ''V''"
  shows "on_keyboard_input page event self = insert_word (clipboard page) self
         \<and> on_keyboard_input page event (self\<lparr>allow_pasting := b\<rparr>)
             = (insert_word (clipboard page) self)\<lparr>allow_pasting := b\<rparr>
         \<and> (cursor_in_range self \<longrightarrow>
               text' (on_keyboard_input page event self)
                 = get_text_up_to_point self @ clipboard page @ get_text_after_point self
               \<and> type_point (on_keyboard_input page event self)
                 = type_point self + int (length (clipboard page))
               \<and> fired (on_keyboard_input page event self)
                 = fired self @ replicate (length (clipboard page)) OnChange)
         \<and> (\<forall>p e s. on_keyboard_input p e (s\<lparr>allow_pasting := b\<rparr>)
                        = (on_keyboard_input p e s)\<lparr>allow_pasting := b\<rparr>)"
proof -
  have paste: "on_keyboard_input page event self = insert_word (clipboard page) self"
    by (rule on_keyboard_input_paste [OF assms])
  have flag: "on_keyboard_input page event (self\<lparr>allow_pasting := b\<rparr>)
             = (insert_word (clipboard page) self)\<lparr>allow_pasting := b\<rparr>"
    by (simp add: on_keyboard_input_allow_pasting [symmetric] paste)
  have "text' (on_keyboard_input page event self)
          = get_text_up_to_point self @ clipboard page @ get_text_after_point self
        \<and> type_point (on_keyboard_input page event self)
          = type_point self + int (length (clipboard page))
        \<and> fired (on_keyboard_input page event self)
          = fired self @ replicate (length (clipboard page)) OnChange"
    if r: "cursor_in_range self"
  proof -
    have tp: "type_point self = int (nat (type_point self))"
      and le: "nat (type_point self) \<le> length (text' self)"
      using r unfolding cursor_in_range_def by (simp_all add: nat_le_iff)
    from insert_word_in_range [OF tp le, of "clipboard page"] tp show ?thesis
      by (simp add: paste slices_in_range(1,2) [OF r])
  qed
  moreover have "\<forall>p e s. on_keyboard_input p e (s\<lparr>allow_pasting := b\<rparr>)
                        = (on_keyboard_input p e s)\<lparr>allow_pasting := b\<rparr>"
    by (simp add: on_keyboard_input_allow_pasting)
  ultimately show ?thesis
    using paste flag by blast
qed

theorem paste_ignores_allow_pasting_witness:
  "\<not> allow_pasting ((clicked_field (py ''ab''))\<lparr>allow_pasting := False\<rparr>)
   \<and> text' (on_keyboard_input (page_with (py ''xyz'')) (press_ctrl (py ''V''))
              ((clicked_field (py ''ab''))\<lparr>allow_pasting := False\<rparr>)) = py ''abxyz''
   \<and> type_point (on_keyboard_input (page_with (py ''xyz'')) (press_ctrl (py ''V''))
              ((clicked_field (py ''ab''))\<lparr>allow_pasting := False\<rparr>)) = 5"
proof -
  let ?s = "(clicked_field (py ''ab''))\<lparr>allow_pasting := False\<rparr>"
  have f: "focused ?s" by simp
  have k: "ctrl (press_ctrl (py ''V''))" "key (press_ctrl (py ''V'')) = py ''V''" by simp_all
  have r: "cursor_in_range ?s" by (simp add: cursor_in_range_def)
  from paste_ignores_allow_pasting [OF f k, of "page_with (py ''xyz'')" True] r
  have "text' (on_keyboard_input (page_with (py ''xyz'')) (press_ctrl (py ''V'')) ?s)
          = get_text_up_to_point ?s @ clipboard (page_with (py ''xyz'')) @ get_text_after_point ?s"
    and "type_point (on_keyboard_input (page_with (py ''xyz'')) (press_ctrl (py ''V'')) ?s)
          = type_point ?s + int (length (clipboard (page_with (py ''xyz''))))"
    by blast+
  then show ?thesis
    by (simp add: get_text_up_to_point_def get_text_after_point_def slice_to_def
        slice_from_def page_with_def)
qed

end
